theory Spec2Isabelle
  imports Main
begin

section \<open>Data model\<close>

text \<open>
  The relay keeps its durable data in five PostgreSQL tables (\<open>users\<close>,
  \<open>otp_requests\<close>, \<open>invites\<close>, \<open>friendships\<close>, \<open>messages\<close>) and its presence
  registry in the JavaScript \<open>Map\<close> \<open>activeUsers\<close>. A table is the list of its rows,
  in insertion order; the registry is the list of its entries, in the insertion
  order a JavaScript \<open>Map\<close> iterates in. Payload fields are strings; times are
  milliseconds, the unit of \<open>Date.now()\<close>.
\<close>

type_synonym pin = string
type_synonym socket_id = string
type_synonym time = int

record user =
  user_id :: nat
  zeus_pin :: pin
  email :: string
  name :: "string option"
  about :: "string option"
  verified_at :: "time option"

record otp_request =
  otp_email :: string
  otp :: string
  expires_at :: time

datatype invite_status = pending | accepted

record invite =
  from_pin :: pin
  to_pin :: pin
  status :: invite_status

record friendship =
  user1_pin :: pin
  user2_pin :: pin

record message =
  msg_id :: nat
  msg_from_pin :: pin
  msg_to_pin :: pin
  content :: string
  ttl :: int
  created_at :: time

record state =
  users :: "user list"
  users_seq :: nat
  otp_requests :: "otp_request list"
  invites :: "invite list"
  friendships :: "friendship list"
  messages :: "message list"
  messages_seq :: nat
  activeUsers :: "(pin \<times> socket_id) list"

text \<open>
  The table declarations are not part of the sources. A statement is modelled
  as executed by an available store; the one failure modelled is a row that
  meets a uniqueness constraint. The constraints the sources name as a conflict
  target are built into the statements below: \<open>otp_requests\<close> is unique on \<open>email\<close>,
  and \<open>users\<close> is unique on \<open>email\<close> (\<open>ON CONFLICT (email)\<close> in server.js) and on
  \<open>zeus_pin\<close> (\<open>ON CONFLICT (zeus_pin)\<close> in the second variant), in both variants.
  The \<open>id\<close> columns of \<open>users\<close> and \<open>messages\<close> are filled by the store from a
  sequence; the store draws the next value for every \<open>INSERT\<close> it is handed,
  whether the row is then inserted, turned into an update by \<open>ON CONFLICT\<close>, or
  rejected. The inserts into \<open>invites\<close> and \<open>friendships\<close> name no target
  (\<open>ON CONFLICT DO NOTHING\<close>, or no clause at all), so the constraint they meet
  is a parameter of the model: \<open>invites_unique\<close> says whether \<open>invites\<close> is unique
  on \<open>(from_pin, to_pin)\<close>, and \<open>friendships_unique\<close> whether \<open>friendships\<close> has no
  constraint, one on the columns \<open>(user1_pin, user2_pin)\<close>, or one on the
  unordered pair.
\<close>

datatype pair_constraint = NoConstraint | OrderedPair | UnorderedPair

record schema =
  invites_unique :: bool
  friendships_unique :: pair_constraint

subsection \<open>Events\<close>

datatype db_error = UniqueViolation

datatype err_message = Text string | StoreMessage db_error

datatype event =
    OtpSent string
  | Error err_message
  | OtpError string
  | OtpVerified user
  | Registered "user option"
  | RegisteredId nat
  | InviteReceived pin pin
  | InviteSent pin
  | FriendAddedTo pin
  | FriendAddedFrom pin
  | InviteAccepted pin pin
  | MessageReceived pin string int "nat option"
  | MessageSent pin string

text \<open>
  \<open>SocketEmit s e\<close> is \<open>socket.emit\<close> on the connection \<open>s\<close> whose action is being
  handled; \<open>IoTo t e\<close> is \<open>io.to(t).emit\<close>.
\<close>

datatype out = SocketEmit socket_id event | IoTo socket_id event

section \<open>The presence registry: a JavaScript Map\<close>

definition map_get :: "(pin \<times> socket_id) list \<Rightarrow> pin \<Rightarrow> socket_id option" where
  "map_get m k = map_of m k"

fun map_set :: "(pin \<times> socket_id) list \<Rightarrow> pin \<Rightarrow> socket_id \<Rightarrow> (pin \<times> socket_id) list" where
  "map_set [] k v = [(k, v)]"
| "map_set ((k', v') # m) k v = (if k' = k then (k, v) # m else (k', v') # map_set m k v)"

definition map_delete :: "(pin \<times> socket_id) list \<Rightarrow> pin \<Rightarrow> (pin \<times> socket_id) list" where
  "map_delete m k = filter (\<lambda>e. fst e \<noteq> k) m"

text \<open>
  \<open>if (toSocketId) io.to(toSocketId).emit(...)\<close>: a missing entry reads as
  \<open>undefined\<close>, and the empty string is falsy as well.
\<close>

definition notify :: "(pin \<times> socket_id) list \<Rightarrow> pin \<Rightarrow> event \<Rightarrow> out list" where
  "notify m p e =
     (case map_get m p of
        None \<Rightarrow> []
      | Some sid \<Rightarrow> if sid = [] then [] else [IoTo sid e])"

section \<open>Generated codes\<close>

fun string_of_nat :: "nat \<Rightarrow> string" where
  "string_of_nat n =
     (if n < 10 then [''0123456789'' ! n]
      else string_of_nat (n div 10) @ [''0123456789'' ! (n mod 10)])"

declare string_of_nat.simps [simp del]

text \<open>
  \<open>num\<close> and \<open>num2\<close> are the two values of
  \<open>Math.floor(1000 + Math.random() * 9000)\<close>.
\<close>

definition generateZeusPIN :: "nat \<Rightarrow> nat \<Rightarrow> pin" where
  "generateZeusPIN num num2 = ''ZT-'' @ string_of_nat num @ ''-'' @ string_of_nat num2"

section \<open>Store statements\<close>

text \<open>\<open>INSERT INTO otp_requests ... ON CONFLICT (email) DO UPDATE SET otp, expires_at\<close>\<close>

definition upsert_otp :: "otp_request list \<Rightarrow> string \<Rightarrow> string \<Rightarrow> time \<Rightarrow> otp_request list" where
  "upsert_otp rows e code exp =
     (if \<exists>r \<in> set rows. otp_email r = e
      then map (\<lambda>r. if otp_email r = e then r\<lparr>otp := code, expires_at := exp\<rparr> else r) rows
      else rows @ [\<lparr>otp_email = e, otp = code, expires_at = exp\<rparr>])"

text \<open>\<open>SELECT * FROM otp_requests WHERE email = $1 AND otp = $2 AND expires_at > NOW()\<close>\<close>

definition select_otp :: "otp_request list \<Rightarrow> string \<Rightarrow> string \<Rightarrow> time \<Rightarrow> otp_request list" where
  "select_otp rows e code now =
     filter (\<lambda>r. otp_email r = e \<and> otp r = code \<and> expires_at r > now) rows"

text \<open>\<open>DELETE FROM otp_requests WHERE email = $1\<close>\<close>

definition delete_otp :: "otp_request list \<Rightarrow> string \<Rightarrow> otp_request list" where
  "delete_otp rows e = filter (\<lambda>r. otp_email r \<noteq> e) rows"

text \<open>
  \<open>pin_taken rows p e\<close>: a row of another address carries the code \<open>p\<close>, so a row
  \<open>(p, e)\<close> violates the uniqueness of \<open>zeus_pin\<close>. \<open>email_taken rows e p\<close>: a row of
  another code carries the address \<open>e\<close>, so a row \<open>(p, e)\<close> violates the uniqueness
  of \<open>email\<close>.
\<close>

definition pin_taken :: "user list \<Rightarrow> pin \<Rightarrow> string \<Rightarrow> bool" where
  "pin_taken rows p e = (\<exists>u \<in> set rows. zeus_pin u = p \<and> email u \<noteq> e)"

definition email_taken :: "user list \<Rightarrow> string \<Rightarrow> pin \<Rightarrow> bool" where
  "email_taken rows e p = (\<exists>u \<in> set rows. email u = e \<and> zeus_pin u \<noteq> p)"

text \<open>
  \<open>INSERT INTO users (zeus_pin, email, verified_at) ... ON CONFLICT (email) DO UPDATE
  SET zeus_pin, verified_at RETURNING *\<close>, handed the id \<open>seq\<close> drawn from the
  sequence: the statement raises when the code is another address's, and
  otherwise gives the new table and the returned row.
\<close>

definition upsert_user_by_email ::
  "user list \<Rightarrow> nat \<Rightarrow> pin \<Rightarrow> string \<Rightarrow> time \<Rightarrow> db_error + user list \<times> user" where
  "upsert_user_by_email rows seq p e now =
     (if pin_taken rows p e then Inl UniqueViolation
      else
        (case find (\<lambda>u. email u = e) rows of
           None \<Rightarrow>
             (let u = \<lparr>user_id = seq, zeus_pin = p, email = e, name = None, about = None,
                        verified_at = Some now\<rparr>
              in Inr (rows @ [u], u))
         | Some old \<Rightarrow>
             Inr (map (\<lambda>u. if email u = e then u\<lparr>zeus_pin := p, verified_at := Some now\<rparr> else u) rows,
                  old\<lparr>zeus_pin := p, verified_at := Some now\<rparr>)))"

text \<open>\<open>UPDATE users SET name = $2, about = $3 WHERE zeus_pin = $1 RETURNING *\<close>\<close>

definition update_profile :: "user list \<Rightarrow> pin \<Rightarrow> string \<Rightarrow> string \<Rightarrow> user list \<times> user list" where
  "update_profile rows p n a =
     (let rows' = map (\<lambda>u. if zeus_pin u = p then u\<lparr>name := Some n, about := Some a\<rparr> else u) rows
      in (rows', filter (\<lambda>u. zeus_pin u = p) rows'))"

text \<open>\<open>SELECT id FROM users WHERE zeus_pin = $1\<close>\<close>

definition select_user_ids :: "user list \<Rightarrow> pin \<Rightarrow> nat list" where
  "select_user_ids rows p = map user_id (filter (\<lambda>u. zeus_pin u = p) rows)"

definition invite_conflict :: "schema \<Rightarrow> invite list \<Rightarrow> invite \<Rightarrow> bool" where
  "invite_conflict sch rows new =
     (invites_unique sch \<and> (\<exists>r \<in> set rows. from_pin r = from_pin new \<and> to_pin r = to_pin new))"

text \<open>\<open>INSERT INTO invites (from_pin, to_pin, status) ... ON CONFLICT DO NOTHING\<close>\<close>

definition insert_invite_do_nothing :: "schema \<Rightarrow> invite list \<Rightarrow> invite \<Rightarrow> invite list" where
  "insert_invite_do_nothing sch rows new =
     (if invite_conflict sch rows new then rows else rows @ [new])"

text \<open>\<open>UPDATE invites SET status = $1 WHERE from_pin = $2 AND to_pin = $3\<close>\<close>

definition update_invite_status :: "invite list \<Rightarrow> invite_status \<Rightarrow> pin \<Rightarrow> pin \<Rightarrow> invite list" where
  "update_invite_status rows st f t =
     map (\<lambda>r. if from_pin r = f \<and> to_pin r = t then r\<lparr>status := st\<rparr> else r) rows"

definition same_ordered :: "friendship \<Rightarrow> friendship \<Rightarrow> bool" where
  "same_ordered r new = (user1_pin r = user1_pin new \<and> user2_pin r = user2_pin new)"

definition same_swapped :: "friendship \<Rightarrow> friendship \<Rightarrow> bool" where
  "same_swapped r new = (user1_pin r = user2_pin new \<and> user2_pin r = user1_pin new)"

definition friendship_conflict :: "schema \<Rightarrow> friendship list \<Rightarrow> friendship \<Rightarrow> bool" where
  "friendship_conflict sch rows new =
     (case friendships_unique sch of
        NoConstraint \<Rightarrow> False
      | OrderedPair \<Rightarrow> (\<exists>r \<in> set rows. same_ordered r new)
      | UnorderedPair \<Rightarrow> (\<exists>r \<in> set rows. same_ordered r new \<or> same_swapped r new))"

text \<open>\<open>INSERT INTO friendships (user1_pin, user2_pin) ... ON CONFLICT DO NOTHING\<close>\<close>

definition insert_friendship_do_nothing ::
  "schema \<Rightarrow> friendship list \<Rightarrow> friendship \<Rightarrow> friendship list" where
  "insert_friendship_do_nothing sch rows new =
     (if friendship_conflict sch rows new then rows else rows @ [new])"

text \<open>
  \<open>SELECT * FROM friendships WHERE (user1_pin = $1 AND user2_pin = $2)
  OR (user1_pin = $2 AND user2_pin = $1)\<close>
\<close>

definition select_friendship :: "friendship list \<Rightarrow> pin \<Rightarrow> pin \<Rightarrow> friendship list" where
  "select_friendship rows a b =
     filter (\<lambda>r. (user1_pin r = a \<and> user2_pin r = b) \<or> (user1_pin r = b \<and> user2_pin r = a)) rows"

text \<open>
  \<open>INSERT INTO messages (from_pin, to_pin, content, ttl, created_at)
  VALUES ($1, $2, $3, $4, NOW()) RETURNING *\<close>
\<close>

definition insert_message ::
  "message list \<Rightarrow> nat \<Rightarrow> pin \<Rightarrow> pin \<Rightarrow> string \<Rightarrow> int \<Rightarrow> time \<Rightarrow> message list \<times> nat \<times> message" where
  "insert_message rows seq f t c l now =
     (let m = \<lparr>msg_id = seq, msg_from_pin = f, msg_to_pin = t, content = c, ttl = l,
                created_at = now\<rparr>
      in (rows @ [m], Suc seq, m))"

section \<open>The handlers of server.js\<close>

text \<open>
  Every handler takes the state, the id of the connection the action arrived on
  and the payload (and the schema, when it inserts into \<open>invites\<close> or
  \<open>friendships\<close>), and returns the new state with the events it emitted, in
  order. \<open>now\<close> is the clock read by the handler (\<open>Date.now()\<close>) or by
  the store (\<open>NOW()\<close>). \<open>n\<close> in \<open>requestOTP\<close> is the value of
  \<open>Math.floor(100000 + Math.random() * 900000)\<close>; \<open>sendOTP\<close> only writes a log
  line and returns.
\<close>

definition requestOTP :: "state \<Rightarrow> socket_id \<Rightarrow> string \<Rightarrow> nat \<Rightarrow> time \<Rightarrow> state \<times> out list" where
  "requestOTP s sock e n now =
     (let code = string_of_nat n;
          expiresAt = now + 10 * 60 * 1000
      in (s\<lparr>otp_requests := upsert_otp (otp_requests s) e code expiresAt\<rparr>,
          [SocketEmit sock (OtpSent e)]))"

definition verifyOTP ::
  "state \<Rightarrow> socket_id \<Rightarrow> string \<Rightarrow> string \<Rightarrow> nat \<Rightarrow> nat \<Rightarrow> time \<Rightarrow> state \<times> out list" where
  "verifyOTP s sock e code num num2 now =
     (if select_otp (otp_requests s) e code now = []
      then (s, [SocketEmit sock (OtpError ''Invalid or expired OTP'')])
      else
        (let zeusPin = generateZeusPIN num num2
         in case upsert_user_by_email (users s) (users_seq s) zeusPin e now of
              Inl err \<Rightarrow>
                (s\<lparr>users_seq := Suc (users_seq s)\<rparr>,
                 [SocketEmit sock (Error (StoreMessage err))])
            | Inr (rows, u) \<Rightarrow>
                (s\<lparr>users := rows, users_seq := Suc (users_seq s),
                   otp_requests := delete_otp (otp_requests s) e\<rparr>,
                 [SocketEmit sock (OtpVerified u)])))"

definition register :: "state \<Rightarrow> socket_id \<Rightarrow> pin \<Rightarrow> string \<Rightarrow> string \<Rightarrow> state \<times> out list" where
  "register s sock zeusPin n a =
     (let (rows, returned) = update_profile (users s) zeusPin n a
      in (s\<lparr>users := rows, activeUsers := map_set (activeUsers s) zeusPin sock\<rparr>,
          [SocketEmit sock (Registered (case returned of [] \<Rightarrow> None | u # _ \<Rightarrow> Some u))]))"

definition addContact :: "schema \<Rightarrow> state \<Rightarrow> socket_id \<Rightarrow> pin \<Rightarrow> pin \<Rightarrow> state \<times> out list" where
  "addContact sch s sock fromPin toPin =
     (if select_user_ids (users s) toPin = []
      then (s, [SocketEmit sock (Error (Text ''Recipient Zeus-PIN not found''))])
      else
        (s\<lparr>invites := insert_invite_do_nothing sch (invites s)
                         \<lparr>from_pin = fromPin, to_pin = toPin, status = pending\<rparr>\<rparr>,
         notify (activeUsers s) toPin (InviteReceived fromPin toPin)
           @ [SocketEmit sock (InviteSent toPin)]))"

definition acceptInvite :: "schema \<Rightarrow> state \<Rightarrow> socket_id \<Rightarrow> pin \<Rightarrow> pin \<Rightarrow> state \<times> out list" where
  "acceptInvite sch s sock fromPin toPin =
     (s\<lparr>invites := update_invite_status (invites s) accepted fromPin toPin,
        friendships := insert_friendship_do_nothing sch (friendships s)
                         \<lparr>user1_pin = fromPin, user2_pin = toPin\<rparr>\<rparr>,
      notify (activeUsers s) fromPin (FriendAddedTo toPin)
        @ notify (activeUsers s) toPin (FriendAddedFrom fromPin)
        @ [SocketEmit sock (InviteAccepted fromPin toPin)])"

definition sendMessage ::
  "state \<Rightarrow> socket_id \<Rightarrow> pin \<Rightarrow> pin \<Rightarrow> string \<Rightarrow> int \<Rightarrow> time \<Rightarrow> state \<times> out list" where
  "sendMessage s sock fromPin toPin msg l now =
     (if select_friendship (friendships s) fromPin toPin = []
      then (s, [SocketEmit sock (Error (Text ''You must be friends to send messages''))])
      else
        (let (rows, seq, m) = insert_message (messages s) (messages_seq s) fromPin toPin msg l now
         in (s\<lparr>messages := rows, messages_seq := seq\<rparr>,
             notify (activeUsers s) toPin (MessageReceived fromPin msg l (Some (msg_id m)))
               @ [SocketEmit sock (MessageSent toPin msg)])))"

text \<open>
  The disconnect handler walks the entries in order and deletes the pin of the
  first entry whose socket id is the connection's, then leaves the loop.
\<close>

fun disconnect_scan ::
  "(pin \<times> socket_id) list \<Rightarrow> socket_id \<Rightarrow> (pin \<times> socket_id) list \<Rightarrow> (pin \<times> socket_id) list" where
  "disconnect_scan [] sock m = m"
| "disconnect_scan ((p, i) # es) sock m =
     (if i = sock then map_delete m p else disconnect_scan es sock m)"

definition disconnect :: "state \<Rightarrow> socket_id \<Rightarrow> state" where
  "disconnect s sock = s\<lparr>activeUsers := disconnect_scan (activeUsers s) sock (activeUsers s)\<rparr>"

section \<open>The handlers of the second variant\<close>

text \<open>
  The second source file registers the handlers \<open>register\<close>, \<open>addContact\<close>,
  \<open>acceptInvite\<close>, \<open>sendMessage\<close> and \<open>disconnect\<close> only. Its inserts carry no
  \<open>ON CONFLICT\<close> clause on \<open>invites\<close> and \<open>friendships\<close>: a row that meets the
  table's uniqueness constraint makes the statement raise, and the handler's
  \<open>catch\<close> emits the error's message and skips the rest of the handler.
\<close>

text \<open>
  \<open>INSERT INTO users (zeus_pin, name, email) ... ON CONFLICT (zeus_pin) DO UPDATE
  SET name, email RETURNING id\<close>, handed the id \<open>seq\<close> drawn from the sequence: the
  statement raises when the address is another code's, and otherwise gives the
  new table and the returned id.
\<close>

definition upsert_user_by_pin ::
  "user list \<Rightarrow> nat \<Rightarrow> pin \<Rightarrow> string \<Rightarrow> string \<Rightarrow> db_error + user list \<times> nat" where
  "upsert_user_by_pin rows seq p n e =
     (if email_taken rows e p then Inl UniqueViolation
      else
        (case find (\<lambda>u. zeus_pin u = p) rows of
           None \<Rightarrow>
             Inr (rows @ [\<lparr>user_id = seq, zeus_pin = p, email = e, name = Some n, about = None,
                            verified_at = None\<rparr>], seq)
         | Some old \<Rightarrow>
             Inr (map (\<lambda>u. if zeus_pin u = p then u\<lparr>name := Some n, email := e\<rparr> else u) rows,
                  user_id old)))"

text \<open>\<open>INSERT INTO invites (from_pin, to_pin, status) VALUES ($1, $2, $3)\<close>\<close>

definition insert_invite :: "schema \<Rightarrow> invite list \<Rightarrow> invite \<Rightarrow> db_error + invite list" where
  "insert_invite sch rows new =
     (if invite_conflict sch rows new then Inl UniqueViolation else Inr (rows @ [new]))"

text \<open>\<open>INSERT INTO friendships (user1_pin, user2_pin) VALUES ($1, $2)\<close>\<close>

definition insert_friendship ::
  "schema \<Rightarrow> friendship list \<Rightarrow> friendship \<Rightarrow> db_error + friendship list" where
  "insert_friendship sch rows new =
     (if friendship_conflict sch rows new then Inl UniqueViolation else Inr (rows @ [new]))"

definition register_part0 ::
  "state \<Rightarrow> socket_id \<Rightarrow> pin \<Rightarrow> string \<Rightarrow> string \<Rightarrow> state \<times> out list" where
  "register_part0 s sock zeusPin n e =
     (case upsert_user_by_pin (users s) (users_seq s) zeusPin n e of
        Inl err \<Rightarrow>
          (s\<lparr>users_seq := Suc (users_seq s)\<rparr>,
           [SocketEmit sock (Error (StoreMessage err))])
      | Inr (rows, uid) \<Rightarrow>
          (s\<lparr>users := rows, users_seq := Suc (users_seq s),
             activeUsers := map_set (activeUsers s) zeusPin sock\<rparr>,
           [SocketEmit sock (RegisteredId uid)]))"

definition addContact_part0 ::
  "schema \<Rightarrow> state \<Rightarrow> socket_id \<Rightarrow> pin \<Rightarrow> pin \<Rightarrow> state \<times> out list" where
  "addContact_part0 sch s sock fromPin toPin =
     (if select_user_ids (users s) toPin = []
      then (s, [SocketEmit sock (Error (Text ''Recipient Zeus-PIN not found''))])
      else
        (case insert_invite sch (invites s)
                \<lparr>from_pin = fromPin, to_pin = toPin, status = pending\<rparr> of
           Inl err \<Rightarrow> (s, [SocketEmit sock (Error (StoreMessage err))])
         | Inr rows \<Rightarrow>
             (s\<lparr>invites := rows\<rparr>,
              notify (activeUsers s) toPin (InviteReceived fromPin toPin)
                @ [SocketEmit sock (InviteSent toPin)])))"

text \<open>
  The two statements of \<open>acceptInvite\<close> are not wrapped in a transaction: when
  the insert raises, the status update before it stays.
\<close>

definition acceptInvite_part0 ::
  "schema \<Rightarrow> state \<Rightarrow> socket_id \<Rightarrow> pin \<Rightarrow> pin \<Rightarrow> state \<times> out list" where
  "acceptInvite_part0 sch s sock fromPin toPin =
     (let s1 = s\<lparr>invites := update_invite_status (invites s) accepted fromPin toPin\<rparr>
      in case insert_friendship sch (friendships s1)
                \<lparr>user1_pin = fromPin, user2_pin = toPin\<rparr> of
           Inl err \<Rightarrow> (s1, [SocketEmit sock (Error (StoreMessage err))])
         | Inr rows \<Rightarrow>
             (s1\<lparr>friendships := rows\<rparr>,
              notify (activeUsers s1) fromPin (FriendAddedTo toPin)
                @ notify (activeUsers s1) toPin (FriendAddedFrom fromPin)
                @ [SocketEmit sock (InviteAccepted fromPin toPin)]))"

definition sendMessage_part0 ::
  "state \<Rightarrow> socket_id \<Rightarrow> pin \<Rightarrow> pin \<Rightarrow> string \<Rightarrow> int \<Rightarrow> time \<Rightarrow> state \<times> out list" where
  "sendMessage_part0 s sock fromPin toPin msg l now =
     (if select_friendship (friendships s) fromPin toPin = []
      then (s, [SocketEmit sock (Error (Text ''You must be friends to send messages''))])
      else
        (let (rows, seq, m) = insert_message (messages s) (messages_seq s) fromPin toPin msg l now
         in (s\<lparr>messages := rows, messages_seq := seq\<rparr>,
             notify (activeUsers s) toPin (MessageReceived fromPin msg l None)
               @ [SocketEmit sock (MessageSent toPin msg)])))"

section \<open>Runs\<close>

text \<open>
  An action is an inbound event with its payload; an input is the connection it
  arrives on, the clock at that moment and the action. Handlers run to
  completion, one input after the other. In the second variant the third field
  of \<open>Register\<close> is the \<open>email\<close> of the payload, and the two OTP events have no
  listener.
\<close>

datatype action =
    RequestOTP string nat
  | VerifyOTP string string nat nat
  | Register pin string string
  | AddContact pin pin
  | AcceptInvite pin pin
  | SendMessage pin pin string int
  | Disconnect

type_synonym input = "socket_id \<times> time \<times> action"

fun handle :: "schema \<Rightarrow> state \<Rightarrow> input \<Rightarrow> state \<times> out list" where
  "handle sch s (sock, now, RequestOTP e n) = requestOTP s sock e n now"
| "handle sch s (sock, now, VerifyOTP e code num num2) = verifyOTP s sock e code num num2 now"
| "handle sch s (sock, now, Register p n a) = register s sock p n a"
| "handle sch s (sock, now, AddContact f t) = addContact sch s sock f t"
| "handle sch s (sock, now, AcceptInvite f t) = acceptInvite sch s sock f t"
| "handle sch s (sock, now, SendMessage f t m l) = sendMessage s sock f t m l now"
| "handle sch s (sock, now, Disconnect) = (disconnect s sock, [])"

fun handle_part0 :: "schema \<Rightarrow> state \<Rightarrow> input \<Rightarrow> state \<times> out list" where
  "handle_part0 sch s (sock, now, RequestOTP e n) = (s, [])"
| "handle_part0 sch s (sock, now, VerifyOTP e code num num2) = (s, [])"
| "handle_part0 sch s (sock, now, Register p n e) = register_part0 s sock p n e"
| "handle_part0 sch s (sock, now, AddContact f t) = addContact_part0 sch s sock f t"
| "handle_part0 sch s (sock, now, AcceptInvite f t) = acceptInvite_part0 sch s sock f t"
| "handle_part0 sch s (sock, now, SendMessage f t m l) = sendMessage_part0 s sock f t m l now"
| "handle_part0 sch s (sock, now, Disconnect) = (disconnect s sock, [])"

fun run :: "(state \<Rightarrow> input \<Rightarrow> state \<times> out list) \<Rightarrow> state \<Rightarrow> input list \<Rightarrow> state \<times> out list" where
  "run h s [] = (s, [])"
| "run h s (x # xs) =
     (let (s1, o1) = h s x; (s2, o2) = run h s1 xs in (s2, o1 @ o2))"

definition empty_state :: state where
  "empty_state =
     \<lparr>users = [], users_seq = 1, otp_requests = [], invites = [], friendships = [],
      messages = [], messages_seq = 1, activeUsers = []\<rparr>"

section \<open>Notions used to state the properties\<close>

text \<open>
  \<open>reissue sock\<close> redirects the events a handler sent with \<open>socket.emit\<close> to the
  connection \<open>sock\<close>, and leaves the events sent with \<open>io.to\<close> alone.
\<close>

fun reissue :: "socket_id \<Rightarrow> out \<Rightarrow> out" where
  "reissue sock (SocketEmit s e) = SocketEmit sock e"
| "reissue sock (IoTo t e) = IoTo t e"

text \<open>The invite rows of an ordered pair.\<close>

definition invites_for :: "invite list \<Rightarrow> pin \<Rightarrow> pin \<Rightarrow> invite list" where
  "invites_for rows f t = filter (\<lambda>r. from_pin r = f \<and> to_pin r = t) rows"

definition one_invite_per_pair :: "invite list \<Rightarrow> bool" where
  "one_invite_per_pair rows = (\<forall>f t. length (invites_for rows f t) \<le> 1)"

definition one_friendship_per_pair :: "friendship list \<Rightarrow> bool" where
  "one_friendship_per_pair rows = (\<forall>a b. length (select_friendship rows a b) \<le> 1)"

text \<open>
  The statements that write the \<open>invites\<close> table: the insert of \<open>addContact\<close> in
  either variant and the update of \<open>acceptInvite\<close>. The store runs each statement
  atomically; handlers of different connections interleave between statements,
  so the table after any concurrent execution is the result of some sequence of
  these writes.
\<close>

datatype invites_write = InsertDoNothing pin pin | InsertPlain pin pin | UpdateAccepted pin pin

fun exec_invites_write :: "schema \<Rightarrow> invite list \<Rightarrow> invites_write \<Rightarrow> invite list" where
  "exec_invites_write sch rows (InsertDoNothing f t) =
     insert_invite_do_nothing sch rows \<lparr>from_pin = f, to_pin = t, status = pending\<rparr>"
| "exec_invites_write sch rows (InsertPlain f t) =
     (case insert_invite sch rows \<lparr>from_pin = f, to_pin = t, status = pending\<rparr> of
        Inl err \<Rightarrow> rows
      | Inr rows' \<Rightarrow> rows')"
| "exec_invites_write sch rows (UpdateAccepted f t) = update_invite_status rows accepted f t"

text \<open>Two states for the examples.\<close>

definition demo_state :: state where
  "demo_state =
     \<lparr>users = [\<lparr>user_id = 1, zeus_pin = ''ZT-1111-2222'', email = ''a@x.com'', name = None,
                 about = None, verified_at = Some 0\<rparr>,
               \<lparr>user_id = 2, zeus_pin = ''ZT-3333-4444'', email = ''b@x.com'', name = None,
                 about = None, verified_at = Some 0\<rparr>],
      users_seq = 3, otp_requests = [],
      invites = [\<lparr>from_pin = ''ZT-1111-2222'', to_pin = ''ZT-3333-4444'', status = accepted\<rparr>],
      friendships = [\<lparr>user1_pin = ''ZT-1111-2222'', user2_pin = ''ZT-3333-4444''\<rparr>],
      messages = [], messages_seq = 1,
      activeUsers = [(''ZT-3333-4444'', ''sockB''), (''ZT-5555-6666'', ''sockC'')]\<rparr>"




section \<open>Basic facts\<close>

lemma generateZeusPIN_example: "generateZeusPIN 1234 5678 = ''ZT-1234-5678''"
  by (simp add: generateZeusPIN_def string_of_nat.simps)

lemma select_friendship_empty_iff:
  "(select_friendship rows a b = []) =
     (\<forall>r \<in> set rows. \<not> ((user1_pin r = a \<and> user2_pin r = b) \<or> (user1_pin r = b \<and> user2_pin r = a)))"
  by (simp add: select_friendship_def filter_empty_conv)

lemma select_friendship_commute: "select_friendship rows a b = select_friendship rows b a"
  unfolding select_friendship_def by (rule filter_cong) auto

lemma notify_cases: "notify m p e = [] \<or> (\<exists>sid. notify m p e = [IoTo sid e])"
  by (simp add: notify_def split: option.split)

lemma map_reissue_notify: "map (reissue sock) (notify m p e) = notify m p e"
  by (simp add: notify_def split: option.split)

lemma notify_append_not_error:
  "notify m p e @ [SocketEmit sock (MessageSent t msg)] \<noteq> [SocketEmit sock' (Error x)]"
  using notify_cases [of m p e] by auto

lemma map_get_map_set: "map_get (map_set m k v) k = Some v"
  by (induction m) (auto simp: map_get_def)

lemma fst_run_Cons: "fst (run h s (x # xs)) = fst (run h (fst (h s x)) xs)"
  by (cases "h s x"; cases "run h (fst (h s x)) xs") simp

lemma run_invariant:
  assumes step: "\<And>s x. I s \<Longrightarrow> I (fst (h s x))"
  shows "I s \<Longrightarrow> I (fst (run h s xs))"
proof (induction xs arbitrary: s)
  case Nil
  then show ?case by simp
next
  case (Cons x xs)
  from step [OF Cons.prems] have "I (fst (h s x))" .
  from Cons.IH [OF this] show ?case
    by (simp only: fst_run_Cons)
qed

section \<open>Message routing\<close>

text \<open>
  Claim C1. When the \<open>friendships\<close> table holds no row for \<open>(fromPin, toPin)\<close> in
  either ordering, \<open>sendMessage\<close> leaves the whole state as it was (so no message
  row is stored) and its only event is the failure event on the sender's
  connection (so nothing goes to the recipient). Both variants.
\<close>

theorem sendMessage_fails_closed:
  assumes "\<forall>r \<in> set (friendships s).
             \<not> (user1_pin r = fromPin \<and> user2_pin r = toPin) \<and>
             \<not> (user1_pin r = toPin \<and> user2_pin r = fromPin)"
  shows "sendMessage s sock fromPin toPin msg l now =
           (s, [SocketEmit sock (Error (Text ''You must be friends to send messages''))])
         \<and> sendMessage_part0 s sock fromPin toPin msg l now =
           (s, [SocketEmit sock (Error (Text ''You must be friends to send messages''))])"
proof -
  from assms have "select_friendship (friendships s) fromPin toPin = []"
    by (auto simp: select_friendship_empty_iff)
  then show ?thesis
    by (simp add: sendMessage_def sendMessage_part0_def)
qed

theorem sendMessage_fails_closed_witness:
  "sendMessage demo_state ''sockA'' ''ZT-1111-2222'' ''ZT-5555-6666'' ''hi'' 30 1000 =
     (demo_state, [SocketEmit ''sockA'' (Error (Text ''You must be friends to send messages''))])
   \<and> sendMessage_part0 demo_state ''sockA'' ''ZT-1111-2222'' ''ZT-5555-6666'' ''hi'' 30 1000 =
     (demo_state, [SocketEmit ''sockA'' (Error (Text ''You must be friends to send messages''))])"
proof -
  have h: "\<forall>r \<in> set (friendships demo_state).
             \<not> (user1_pin r = ''ZT-1111-2222'' \<and> user2_pin r = ''ZT-5555-6666'') \<and>
             \<not> (user1_pin r = ''ZT-5555-6666'' \<and> user2_pin r = ''ZT-1111-2222'')"
    by (simp add: demo_state_def)
  show ?thesis
    by (rule sendMessage_fails_closed [OF h])
qed

text \<open>
  Claim C7. When a \<open>friendships\<close> row exists for the pair, in either ordering,
  \<open>sendMessage\<close> appends exactly one row to \<open>messages\<close>, whatever the presence
  registry holds for the recipient. The events are the push to the recipient's
  connection, present only when the registry has one, followed by the
  acknowledgement to the sender. Both variants; the second one's push carries no
  message id.
\<close>

theorem sendMessage_persists_one:
  assumes "\<exists>r \<in> set (friendships s).
             (user1_pin r = fromPin \<and> user2_pin r = toPin) \<or>
             (user1_pin r = toPin \<and> user2_pin r = fromPin)"
  shows "messages (fst (sendMessage s sock fromPin toPin msg l now)) =
           messages s @ [\<lparr>msg_id = messages_seq s, msg_from_pin = fromPin, msg_to_pin = toPin,
                           content = msg, ttl = l, created_at = now\<rparr>]
         \<and> snd (sendMessage s sock fromPin toPin msg l now) =
             notify (activeUsers s) toPin (MessageReceived fromPin msg l (Some (messages_seq s)))
               @ [SocketEmit sock (MessageSent toPin msg)]
         \<and> messages (fst (sendMessage_part0 s sock fromPin toPin msg l now)) =
           messages s @ [\<lparr>msg_id = messages_seq s, msg_from_pin = fromPin, msg_to_pin = toPin,
                           content = msg, ttl = l, created_at = now\<rparr>]
         \<and> snd (sendMessage_part0 s sock fromPin toPin msg l now) =
             notify (activeUsers s) toPin (MessageReceived fromPin msg l None)
               @ [SocketEmit sock (MessageSent toPin msg)]"
proof -
  from assms have "select_friendship (friendships s) fromPin toPin \<noteq> []"
    by (simp add: select_friendship_empty_iff)
  then show ?thesis
    by (simp add: sendMessage_def sendMessage_part0_def insert_message_def Let_def)
qed

text \<open>
  In \<open>demo_state\<close> the two identities are related; \<open>ZT-3333-4444\<close> is online and
  \<open>ZT-1111-2222\<close> is not. One row is stored in both directions; only the online
  recipient gets a push.
\<close>

theorem sendMessage_persists_one_witness:
  "messages (fst (sendMessage demo_state ''sockA'' ''ZT-1111-2222'' ''ZT-3333-4444'' ''hi'' 30 1000)) =
     [\<lparr>msg_id = 1, msg_from_pin = ''ZT-1111-2222'', msg_to_pin = ''ZT-3333-4444'',
        content = ''hi'', ttl = 30, created_at = 1000\<rparr>]
   \<and> snd (sendMessage demo_state ''sockA'' ''ZT-1111-2222'' ''ZT-3333-4444'' ''hi'' 30 1000) =
       [IoTo ''sockB'' (MessageReceived ''ZT-1111-2222'' ''hi'' 30 (Some 1)),
        SocketEmit ''sockA'' (MessageSent ''ZT-3333-4444'' ''hi'')]
   \<and> messages (fst (sendMessage demo_state ''sockB'' ''ZT-3333-4444'' ''ZT-1111-2222'' ''yo'' 5 2000)) =
     [\<lparr>msg_id = 1, msg_from_pin = ''ZT-3333-4444'', msg_to_pin = ''ZT-1111-2222'',
        content = ''yo'', ttl = 5, created_at = 2000\<rparr>]
   \<and> snd (sendMessage demo_state ''sockB'' ''ZT-3333-4444'' ''ZT-1111-2222'' ''yo'' 5 2000) =
       [SocketEmit ''sockB'' (MessageSent ''ZT-1111-2222'' ''yo'')]"
proof -
  have h1: "\<exists>r \<in> set (friendships demo_state).
             (user1_pin r = ''ZT-1111-2222'' \<and> user2_pin r = ''ZT-3333-4444'') \<or>
             (user1_pin r = ''ZT-3333-4444'' \<and> user2_pin r = ''ZT-1111-2222'')"
    by (simp add: demo_state_def)
  have h2: "\<exists>r \<in> set (friendships demo_state).
             (user1_pin r = ''ZT-3333-4444'' \<and> user2_pin r = ''ZT-1111-2222'') \<or>
             (user1_pin r = ''ZT-1111-2222'' \<and> user2_pin r = ''ZT-3333-4444'')"
    by (simp add: demo_state_def)
  have n1: "notify (activeUsers demo_state) ''ZT-3333-4444'' e = [IoTo ''sockB'' e]" for e
    by (simp add: notify_def map_get_def demo_state_def)
  have n2: "notify (activeUsers demo_state) ''ZT-1111-2222'' e = []" for e
    by (simp add: notify_def map_get_def demo_state_def)
  have m: "messages demo_state = []" "messages_seq demo_state = 1"
    by (simp_all add: demo_state_def)
  from sendMessage_persists_one [OF h1, where sock = "''sockA''" and msg = "''hi''" and l = 30 and now = 1000]
    sendMessage_persists_one [OF h2, where sock = "''sockB''" and msg = "''yo''" and l = 5 and now = 2000]
  show ?thesis
    by (simp add: n1 n2 m)
qed

text \<open>
  Claim C8. The friendship query returns the same rows for \<open>(a, b)\<close> and for
  \<open>(b, a)\<close>, so the authorization test of \<open>sendMessage\<close>, which rejects exactly
  when the query returns no row, decides the same way for both orderings, in
  every state. Both variants.
\<close>

theorem friendship_check_symmetric:
  "select_friendship rows a b = select_friendship rows b a
   \<and> ((snd (sendMessage s sock a b m l now) =
         [SocketEmit sock (Error (Text ''You must be friends to send messages''))])
      = (snd (sendMessage s sock b a m l now) =
         [SocketEmit sock (Error (Text ''You must be friends to send messages''))]))
   \<and> ((snd (sendMessage_part0 s sock a b m l now) =
         [SocketEmit sock (Error (Text ''You must be friends to send messages''))])
      = (snd (sendMessage_part0 s sock b a m l now) =
         [SocketEmit sock (Error (Text ''You must be friends to send messages''))]))"
proof -
  have c: "select_friendship (friendships s) a b = select_friendship (friendships s) b a"
    by (rule select_friendship_commute)
  show ?thesis
    by (simp add: select_friendship_commute [of rows a b] sendMessage_def sendMessage_part0_def c
        insert_message_def Let_def notify_append_not_error)
qed

theorem friendship_check_symmetric_witness:
  "select_friendship (friendships demo_state) ''ZT-3333-4444'' ''ZT-1111-2222'' =
     [\<lparr>user1_pin = ''ZT-1111-2222'', user2_pin = ''ZT-3333-4444''\<rparr>]
   \<and> select_friendship (friendships demo_state) ''ZT-1111-2222'' ''ZT-3333-4444'' =
     [\<lparr>user1_pin = ''ZT-1111-2222'', user2_pin = ''ZT-3333-4444''\<rparr>]"
proof -
  have "select_friendship (friendships demo_state) ''ZT-1111-2222'' ''ZT-3333-4444'' =
     [\<lparr>user1_pin = ''ZT-1111-2222'', user2_pin = ''ZT-3333-4444''\<rparr>]"
    by (simp add: select_friendship_def demo_state_def)
  with friendship_check_symmetric [where rows = "friendships demo_state"
      and a = "''ZT-3333-4444''" and b = "''ZT-1111-2222''"]
  show ?thesis by simp
qed

section \<open>One-time codes\<close>















section \<open>Who may act\<close>

text \<open>
  Claim C10. \<open>addContact\<close>, \<open>acceptInvite\<close> and \<open>sendMessage\<close> never consult the
  connection an action arrives on, nor what the registry binds to it: issued on
  connection \<open>sockb\<close> instead of \<open>socka\<close> with the same payload against the same
  state, an action produces the same new state and the same events, the
  \<open>socket.emit\<close> answers going to \<open>sockb\<close> instead of \<open>socka\<close>. The state, and with it
  the registry, is arbitrary, so this holds whatever code is bound to either
  connection. Both variants.
\<close>

theorem issuer_binding_irrelevant:
  "fst (addContact sch s sockb f t) = fst (addContact sch s socka f t)
   \<and> snd (addContact sch s sockb f t) = map (reissue sockb) (snd (addContact sch s socka f t))
   \<and> fst (acceptInvite sch s sockb f t) = fst (acceptInvite sch s socka f t)
   \<and> snd (acceptInvite sch s sockb f t) = map (reissue sockb) (snd (acceptInvite sch s socka f t))
   \<and> fst (sendMessage s sockb f t m l now) = fst (sendMessage s socka f t m l now)
   \<and> snd (sendMessage s sockb f t m l now) = map (reissue sockb) (snd (sendMessage s socka f t m l now))
   \<and> fst (addContact_part0 sch s sockb f t) = fst (addContact_part0 sch s socka f t)
   \<and> snd (addContact_part0 sch s sockb f t) = map (reissue sockb) (snd (addContact_part0 sch s socka f t))
   \<and> fst (acceptInvite_part0 sch s sockb f t) = fst (acceptInvite_part0 sch s socka f t)
   \<and> snd (acceptInvite_part0 sch s sockb f t) = map (reissue sockb) (snd (acceptInvite_part0 sch s socka f t))
   \<and> fst (sendMessage_part0 s sockb f t m l now) = fst (sendMessage_part0 s socka f t m l now)
   \<and> snd (sendMessage_part0 s sockb f t m l now) = map (reissue sockb) (snd (sendMessage_part0 s socka f t m l now))"
  by (simp add: addContact_def acceptInvite_def sendMessage_def addContact_part0_def
      acceptInvite_part0_def sendMessage_part0_def insert_message_def Let_def map_reissue_notify
      split: sum.split)

text \<open>
  In \<open>demo_state\<close> the connection \<open>sockC\<close> is bound to \<open>ZT-5555-6666\<close> and \<open>sockA\<close> to
  nothing. A message in the name of \<open>ZT-1111-2222\<close> sent on \<open>sockC\<close> is stored and
  pushed to the recipient exactly as when it is sent on \<open>sockA\<close>.
\<close>

theorem issuer_binding_irrelevant_witness:
  "fst (sendMessage demo_state ''sockC'' ''ZT-1111-2222'' ''ZT-3333-4444'' ''hi'' 30 1000) =
     fst (sendMessage demo_state ''sockA'' ''ZT-1111-2222'' ''ZT-3333-4444'' ''hi'' 30 1000)
   \<and> snd (sendMessage demo_state ''sockC'' ''ZT-1111-2222'' ''ZT-3333-4444'' ''hi'' 30 1000) =
       [IoTo ''sockB'' (MessageReceived ''ZT-1111-2222'' ''hi'' 30 (Some 1)),
        SocketEmit ''sockC'' (MessageSent ''ZT-3333-4444'' ''hi'')]"
proof -
  have "snd (sendMessage demo_state ''sockA'' ''ZT-1111-2222'' ''ZT-3333-4444'' ''hi'' 30 1000) =
       [IoTo ''sockB'' (MessageReceived ''ZT-1111-2222'' ''hi'' 30 (Some 1)),
        SocketEmit ''sockA'' (MessageSent ''ZT-3333-4444'' ''hi'')]"
    by (simp add: sendMessage_def select_friendship_def insert_message_def notify_def map_get_def
        demo_state_def Let_def)
  with issuer_binding_irrelevant [where s = demo_state and socka = "''sockA''"
      and sockb = "''sockC''" and f = "''ZT-1111-2222''" and t = "''ZT-3333-4444''"
      and m = "''hi''" and l = 30 and now = 1000]
  show ?thesis by simp
qed

section \<open>Registration and presence\<close>

lemma update_profile_returned:
  "(filter (\<lambda>u. zeus_pin u = p)
      (map (\<lambda>u. if zeus_pin u = p then u\<lparr>name := Some n, about := Some a\<rparr> else u) rows) = [])
   = (\<forall>u \<in> set rows. zeus_pin u \<noteq> p)"
  by (induction rows) auto

lemma register_answer:
  "\<exists>r. snd (register s sock zeusPin n a) = [SocketEmit sock (Registered r)]
       \<and> ((r = None) = (\<forall>u \<in> set (users s). zeus_pin u \<noteq> zeusPin))"
proof (cases "filter (\<lambda>u. zeus_pin u = zeusPin)
      (map (\<lambda>u. if zeus_pin u = zeusPin then u\<lparr>name := Some n, about := Some a\<rparr> else u) (users s))")
  case Nil
  then show ?thesis
    using update_profile_returned [where p = zeusPin and n = n and a = a and rows = "users s"]
    by (simp add: register_def update_profile_def Let_def)
next
  case (Cons u us)
  then show ?thesis
    using update_profile_returned [where p = zeusPin and n = n and a = a and rows = "users s"]
    by (simp add: register_def update_profile_def Let_def)
qed

lemma upsert_user_by_pin_free:
  assumes "\<not> email_taken rows e p"
  shows "\<exists>rows' uid. upsert_user_by_pin rows seq p n e = Inr (rows', uid)
          \<and> (\<exists>u \<in> set rows'. zeus_pin u = p \<and> name u = Some n \<and> email u = e)"
proof (cases "find (\<lambda>u. zeus_pin u = p) rows")
  case None
  with assms show ?thesis by (simp add: upsert_user_by_pin_def)
next
  case (Some old)
  then have old: "old \<in> set rows" "zeus_pin old = p"
    by (auto simp: find_Some_iff)
  let ?rows = "map (\<lambda>u. if zeus_pin u = p then u\<lparr>name := Some n, email := e\<rparr> else u) rows"
  from assms Some have r: "upsert_user_by_pin rows seq p n e = Inr (?rows, user_id old)"
    by (simp add: upsert_user_by_pin_def)
  from old have "old\<lparr>name := Some n, email := e\<rparr> \<in> set ?rows"
    by force
  moreover have "zeus_pin (old\<lparr>name := Some n, email := e\<rparr>) = p
      \<and> name (old\<lparr>name := Some n, email := e\<rparr>) = Some n
      \<and> email (old\<lparr>name := Some n, email := e\<rparr>) = e"
    using old by simp
  ultimately have "\<exists>u \<in> set ?rows. zeus_pin u = p \<and> name u = Some n \<and> email u = e"
    by (rule bexI [rotated])
  with r show ?thesis by blast
qed

lemma register_part0_taken:
  "email_taken (users s) e zeusPin \<Longrightarrow>
   register_part0 s sock zeusPin n e =
     (s\<lparr>users_seq := Suc (users_seq s)\<rparr>,
      [SocketEmit sock (Error (StoreMessage UniqueViolation))])"
  by (simp add: register_part0_def upsert_user_by_pin_def)

lemma register_part0_free:
  assumes "\<not> email_taken (users s) e zeusPin"
  shows "\<exists>rows uid. register_part0 s sock zeusPin n e =
      (s\<lparr>users := rows, users_seq := Suc (users_seq s),
         activeUsers := map_set (activeUsers s) zeusPin sock\<rparr>,
       [SocketEmit sock (RegisteredId uid)])
      \<and> (\<exists>u \<in> set rows. zeus_pin u = zeusPin \<and> name u = Some n \<and> email u = e)"
proof -
  from upsert_user_by_pin_free [OF assms, of "users_seq s" n]
  obtain rows uid where r: "upsert_user_by_pin (users s) (users_seq s) zeusPin n e = Inr (rows, uid)"
    and u: "\<exists>u \<in> set rows. zeus_pin u = zeusPin \<and> name u = Some n \<and> email u = e"
    by blast
  from r have "register_part0 s sock zeusPin n e =
      (s\<lparr>users := rows, users_seq := Suc (users_seq s),
         activeUsers := map_set (activeUsers s) zeusPin sock\<rparr>,
       [SocketEmit sock (RegisteredId uid)])"
    by (simp add: register_part0_def)
  with u show ?thesis by blast
qed

lemma register_part0_keeps:
  "invites (fst (register_part0 s sock zeusPin n e)) = invites s
   \<and> friendships (fst (register_part0 s sock zeusPin n e)) = friendships s"
  by (simp add: register_part0_def split: sum.split prod.split)

lemma verifyOTP_keeps:
  "invites (fst (verifyOTP s sock e code num numb now)) = invites s
   \<and> friendships (fst (verifyOTP s sock e code num numb now)) = friendships s"
  by (simp add: verifyOTP_def Let_def split: sum.split prod.split)

text \<open>
  Claim C4, as the code has it. \<open>register\<close> does not look for the identity first.
  In server.js it updates the profile fields of the \<open>users\<close> rows that carry the
  code (none when there is no such row, and then no row is created), binds the
  code to the connection and answers \<open>registered\<close>, with no user in the answer
  exactly when no row carries the code; there is no error answer and no missing
  binding for an unknown code. In the second variant it upserts the row, so an
  identity carrying the code exists afterwards, binds the code and answers
  \<open>registered\<close>; only when the address of the payload is already another code's
  does the store reject the upsert, and then the answer is \<open>error\<close> and no binding
  is made.
\<close>

theorem register_binds_without_validation:
  "map_get (activeUsers (fst (register s sock zeusPin n a))) zeusPin = Some sock
   \<and> users (fst (register s sock zeusPin n a)) =
       map (\<lambda>u. if zeus_pin u = zeusPin then u\<lparr>name := Some n, about := Some a\<rparr> else u) (users s)
   \<and> (\<exists>r. snd (register s sock zeusPin n a) = [SocketEmit sock (Registered r)]
          \<and> ((r = None) = (\<forall>u \<in> set (users s). zeus_pin u \<noteq> zeusPin)))
   \<and> (\<not> email_taken (users s) e zeusPin \<longrightarrow>
        map_get (activeUsers (fst (register_part0 s sock zeusPin n e))) zeusPin = Some sock
        \<and> (\<exists>u \<in> set (users (fst (register_part0 s sock zeusPin n e))).
              zeus_pin u = zeusPin \<and> name u = Some n \<and> email u = e)
        \<and> (\<exists>i. snd (register_part0 s sock zeusPin n e) = [SocketEmit sock (RegisteredId i)]))
   \<and> (email_taken (users s) e zeusPin \<longrightarrow>
        register_part0 s sock zeusPin n e =
          (s\<lparr>users_seq := Suc (users_seq s)\<rparr>,
           [SocketEmit sock (Error (StoreMessage UniqueViolation))]))"
proof -
  have bound: "map_get (activeUsers (fst (register s sock zeusPin n a))) zeusPin = Some sock"
    by (simp add: register_def update_profile_def Let_def map_get_map_set)
  have rows: "users (fst (register s sock zeusPin n a)) =
       map (\<lambda>u. if zeus_pin u = zeusPin then u\<lparr>name := Some n, about := Some a\<rparr> else u) (users s)"
    by (simp add: register_def update_profile_def Let_def)
  have free: "map_get (activeUsers (fst (register_part0 s sock zeusPin n e))) zeusPin = Some sock
        \<and> (\<exists>u \<in> set (users (fst (register_part0 s sock zeusPin n e))).
              zeus_pin u = zeusPin \<and> name u = Some n \<and> email u = e)
        \<and> (\<exists>i. snd (register_part0 s sock zeusPin n e) = [SocketEmit sock (RegisteredId i)])"
    if "\<not> email_taken (users s) e zeusPin"
  proof -
    from register_part0_free [OF that, of sock n]
    obtain rows uid where r: "register_part0 s sock zeusPin n e =
      (s\<lparr>users := rows, users_seq := Suc (users_seq s),
         activeUsers := map_set (activeUsers s) zeusPin sock\<rparr>,
       [SocketEmit sock (RegisteredId uid)])"
      and u: "\<exists>u \<in> set rows. zeus_pin u = zeusPin \<and> name u = Some n \<and> email u = e"
      by blast
    from u show ?thesis by (simp add: r map_get_map_set)
  qed
  from bound rows register_answer [of s sock zeusPin n a] free
    register_part0_taken [of s e zeusPin sock n]
  show ?thesis by blast
qed

text \<open>
  In \<open>demo_state\<close> no identity carries \<open>ZT-9999-9999\<close>. server.js binds the code
  and answers \<open>registered\<close> with no user; the second variant creates the
  identity when the address is free, and answers \<open>error\<close> without binding when
  the address is the one of \<open>ZT-1111-2222\<close>.
\<close>

theorem register_binds_without_validation_witness:
  "map_get (activeUsers (fst (register demo_state ''sockA'' ''ZT-9999-9999'' ''Ann'' ''hi'')))
      ''ZT-9999-9999'' = Some ''sockA''
   \<and> users (fst (register demo_state ''sockA'' ''ZT-9999-9999'' ''Ann'' ''hi'')) = users demo_state
   \<and> snd (register demo_state ''sockA'' ''ZT-9999-9999'' ''Ann'' ''hi'') =
       [SocketEmit ''sockA'' (Registered None)]
   \<and> map_get (activeUsers (fst (register_part0 demo_state ''sockA'' ''ZT-9999-9999'' ''Ann''
        ''ann@x.com''))) ''ZT-9999-9999'' = Some ''sockA''
   \<and> register_part0 demo_state ''sockA'' ''ZT-9999-9999'' ''Ann'' ''a@x.com'' =
       (demo_state\<lparr>users_seq := 4\<rparr>,
        [SocketEmit ''sockA'' (Error (StoreMessage UniqueViolation))])"
proof -
  have none: "\<forall>u \<in> set (users demo_state). zeus_pin u \<noteq> ''ZT-9999-9999''"
    by (simp add: demo_state_def)
  then have same: "map (\<lambda>u. if zeus_pin u = ''ZT-9999-9999''
                  then u\<lparr>name := Some ''Ann'', about := Some ''hi''\<rparr> else u) (users demo_state)
              = users demo_state"
    by (simp add: demo_state_def)
  have free: "\<not> email_taken (users demo_state) ''ann@x.com'' ''ZT-9999-9999''"
    by (simp add: email_taken_def demo_state_def)
  have taken: "email_taken (users demo_state) ''a@x.com'' ''ZT-9999-9999''"
    by (simp add: email_taken_def demo_state_def)
  have seq: "Suc (users_seq demo_state) = 4"
    by (simp add: demo_state_def)
  from register_binds_without_validation [where s = demo_state and sock = "''sockA''"
      and zeusPin = "''ZT-9999-9999''" and n = "''Ann''" and a = "''hi''" and e = "''ann@x.com''"]
    none same free
  have a: "map_get (activeUsers (fst (register demo_state ''sockA'' ''ZT-9999-9999'' ''Ann'' ''hi'')))
      ''ZT-9999-9999'' = Some ''sockA''
   \<and> users (fst (register demo_state ''sockA'' ''ZT-9999-9999'' ''Ann'' ''hi'')) = users demo_state
   \<and> snd (register demo_state ''sockA'' ''ZT-9999-9999'' ''Ann'' ''hi'') =
       [SocketEmit ''sockA'' (Registered None)]
   \<and> map_get (activeUsers (fst (register_part0 demo_state ''sockA'' ''ZT-9999-9999'' ''Ann''
        ''ann@x.com''))) ''ZT-9999-9999'' = Some ''sockA''"
    by auto
  from register_binds_without_validation [where s = demo_state and sock = "''sockA''"
      and zeusPin = "''ZT-9999-9999''" and n = "''Ann''" and a = "''hi''" and e = "''a@x.com''"]
    taken seq
  have b: "register_part0 demo_state ''sockA'' ''ZT-9999-9999'' ''Ann'' ''a@x.com'' =
       (demo_state\<lparr>users_seq := 4\<rparr>,
        [SocketEmit ''sockA'' (Error (StoreMessage UniqueViolation))])"
    by simp
  from a b show ?thesis by blast
qed

text \<open>
  The claim as written fails at an unknown code: on the empty store \<open>register\<close>
  binds the code and answers \<open>registered\<close> in both variants.
\<close>

theorem register_unknown_code_counterexample:
  "register empty_state ''sockA'' ''ZT-0000-0000'' ''Ann'' ''hi'' =
     (empty_state\<lparr>activeUsers := [(''ZT-0000-0000'', ''sockA'')]\<rparr>,
      [SocketEmit ''sockA'' (Registered None)])
   \<and> register_part0 empty_state ''sockA'' ''ZT-0000-0000'' ''Ann'' ''ann@x.com'' =
     (empty_state\<lparr>users := [\<lparr>user_id = 1, zeus_pin = ''ZT-0000-0000'', email = ''ann@x.com'',
                                name = Some ''Ann'', about = None, verified_at = None\<rparr>],
                    users_seq := 2,
                    activeUsers := [(''ZT-0000-0000'', ''sockA'')]\<rparr>,
      [SocketEmit ''sockA'' (RegisteredId 1)])"
  by (simp add: register_def register_part0_def update_profile_def upsert_user_by_pin_def
      email_taken_def empty_state_def)

lemma disconnect_scan_find:
  "disconnect_scan es sock m =
     (case find (\<lambda>en. snd en = sock) es of None \<Rightarrow> m | Some en \<Rightarrow> map_delete m (fst en))"
  by (induction es sock m rule: disconnect_scan.induct) auto

lemma two_in_filter:
  assumes "x \<in> set xs" "y \<in> set xs" "P x" "P y" "x \<noteq> y"
  shows "2 \<le> length (filter P xs)"
proof -
  have sub: "{x, y} \<subseteq> set (filter P xs)" using assms by simp
  have "card {x, y} \<le> card (set (filter P xs))"
    by (rule card_mono [OF _ sub]) simp
  also have "\<dots> \<le> length (filter P xs)" by (rule card_length)
  finally show ?thesis using \<open>x \<noteq> y\<close> by simp
qed

text \<open>
  Claim C9, as the code has it. The disconnect handler deletes the code of the
  first registry entry, in insertion order, that references the terminating
  connection, and nothing else. When at most one entry references the
  connection, no entry references it afterwards. \<open>register\<close> does not keep the
  registry in that shape: every code a connection registers gets an entry.
\<close>

theorem disconnect_clears_single_binding:
  "activeUsers (disconnect s sock) =
     (case find (\<lambda>en. snd en = sock) (activeUsers s) of
        None \<Rightarrow> activeUsers s
      | Some en \<Rightarrow> map_delete (activeUsers s) (fst en))
   \<and> (length (filter (\<lambda>en. snd en = sock) (activeUsers s)) \<le> 1
        \<longrightarrow> (\<forall>en \<in> set (activeUsers (disconnect s sock)). snd en \<noteq> sock))"
proof -
  let ?m = "activeUsers s"
  have shape: "activeUsers (disconnect s sock) =
     (case find (\<lambda>en. snd en = sock) ?m of None \<Rightarrow> ?m | Some en \<Rightarrow> map_delete ?m (fst en))"
    by (simp add: disconnect_def disconnect_scan_find)
  have "\<forall>en \<in> set (activeUsers (disconnect s sock)). snd en \<noteq> sock"
    if le: "length (filter (\<lambda>en. snd en = sock) ?m) \<le> 1"
  proof (cases "find (\<lambda>en. snd en = sock) ?m")
    case None
    then have "\<forall>en \<in> set ?m. snd en \<noteq> sock" by (auto simp: find_None_iff)
    then show ?thesis by (simp add: shape None)
  next
    case (Some en)
    then have en: "en \<in> set ?m" "snd en = sock"
      by (auto simp: find_Some_iff)
    show ?thesis
    proof
      fix en' assume "en' \<in> set (activeUsers (disconnect s sock))"
      then have en': "en' \<in> set ?m" "fst en' \<noteq> fst en"
        by (simp_all add: shape Some map_delete_def)
      show "snd en' \<noteq> sock"
      proof
        assume "snd en' = sock"
        with en en' have "2 \<le> length (filter (\<lambda>en. snd en = sock) ?m)"
          by (intro two_in_filter [where x = en and y = en']) auto
        with le show False by simp
      qed
    qed
  qed
  with shape show ?thesis by blast
qed

theorem disconnect_clears_single_binding_witness:
  "activeUsers (disconnect demo_state ''sockB'') = [(''ZT-5555-6666'', ''sockC'')]
   \<and> ''sockB'' \<notin> snd ` set (activeUsers (disconnect demo_state ''sockB''))"
proof -
  have one: "length (filter (\<lambda>en. snd en = ''sockB'') (activeUsers demo_state)) \<le> 1"
    by (simp add: demo_state_def)
  have eq: "activeUsers (disconnect demo_state ''sockB'') = [(''ZT-5555-6666'', ''sockC'')]"
    by (simp add: disconnect_def map_delete_def demo_state_def)
  from disconnect_clears_single_binding [where s = demo_state and sock = "''sockB''"] one
  have "\<forall>en \<in> set (activeUsers (disconnect demo_state ''sockB'')). snd en \<noteq> ''sockB''"
    by blast
  then have "''sockB'' \<notin> snd ` set (activeUsers (disconnect demo_state ''sockB''))"
    by auto
  with eq show ?thesis by (rule conjI)
qed

text \<open>
  The claim as written fails when a connection registered two codes: both
  entries reference it, and after its disconnect the second code still maps to
  it.
\<close>

theorem disconnect_stale_binding_counterexample:
  "map_get (activeUsers (disconnect
      (fst (register (fst (register empty_state ''sockA'' ''ZT-1111-2222'' ''Ann'' ''hi''))
              ''sockA'' ''ZT-3333-4444'' ''Bob'' ''yo'')) ''sockA'')) ''ZT-3333-4444''
     = Some ''sockA''
   \<and> length (filter (\<lambda>en. snd en = ''sockA'')
        (activeUsers (fst (register (fst (register empty_state ''sockA'' ''ZT-1111-2222'' ''Ann'' ''hi''))
              ''sockA'' ''ZT-3333-4444'' ''Bob'' ''yo'')))) = 2"
  by (simp add: register_def update_profile_def empty_state_def disconnect_def map_delete_def
      map_get_def)

section \<open>Invites and relationships\<close>

subsection \<open>What an invite stores\<close>

lemma invites_for_append:
  "invites_for (rows @ [new]) f t =
     invites_for rows f t @ (if from_pin new = f \<and> to_pin new = t then [new] else [])"
  by (simp add: invites_for_def)

lemma invite_conflict_iff:
  "invite_conflict sch rows new =
     (invites_unique sch \<and> invites_for rows (from_pin new) (to_pin new) \<noteq> [])"
  by (auto simp: invite_conflict_def invites_for_def filter_empty_conv)

lemma addContact_unfold:
  "select_user_ids (users s) t \<noteq> [] \<Longrightarrow>
   addContact sch s sock f t =
     (s\<lparr>invites := (if invite_conflict sch (invites s) \<lparr>from_pin = f, to_pin = t, status = pending\<rparr>
                       then invites s
                       else invites s @ [\<lparr>from_pin = f, to_pin = t, status = pending\<rparr>])\<rparr>,
      notify (activeUsers s) t (InviteReceived f t) @ [SocketEmit sock (InviteSent t)])"
  by (simp add: addContact_def insert_invite_do_nothing_def)

lemma addContact_part0_unfold:
  "select_user_ids (users s) t \<noteq> [] \<Longrightarrow>
   addContact_part0 sch s sock f t =
     (if invite_conflict sch (invites s) \<lparr>from_pin = f, to_pin = t, status = pending\<rparr>
      then (s, [SocketEmit sock (Error (StoreMessage UniqueViolation))])
      else (s\<lparr>invites := invites s @ [\<lparr>from_pin = f, to_pin = t, status = pending\<rparr>]\<rparr>,
            notify (activeUsers s) t (InviteReceived f t) @ [SocketEmit sock (InviteSent t)]))"
  by (simp add: addContact_part0_def insert_invite_def)

text \<open>
  Claim C3, as the code has it. The handlers do not look for an existing invite;
  whether a repeated invite is stored again is left to the store. What holds for
  every store: an \<open>addContact\<close> adds at most one row, the pending row of the
  ordered pair, and changes no other; when the recipient exists and the ordered
  pair has no invite row, that row is added; after an \<open>addContact\<close> to an existing
  recipient the ordered pair has an invite row; and in server.js the handler
  answers \<open>inviteSent\<close> for every invite to an existing recipient, whether or not
  the store kept the row. Both variants, except for the last.
\<close>

theorem addContact_stores_invite:
  "(invites (fst (addContact sch s sock f t)) = invites s
      \<or> invites (fst (addContact sch s sock f t)) =
          invites s @ [\<lparr>from_pin = f, to_pin = t, status = pending\<rparr>])
   \<and> (select_user_ids (users s) t \<noteq> [] \<longrightarrow> invites_for (invites s) f t = [] \<longrightarrow>
        invites (fst (addContact sch s sock f t)) =
          invites s @ [\<lparr>from_pin = f, to_pin = t, status = pending\<rparr>])
   \<and> (select_user_ids (users s) t \<noteq> [] \<longrightarrow>
        invites_for (invites (fst (addContact sch s sock f t))) f t \<noteq> [])
   \<and> (select_user_ids (users s) t \<noteq> [] \<longrightarrow>
        snd (addContact sch s sock f t) =
          notify (activeUsers s) t (InviteReceived f t) @ [SocketEmit sock (InviteSent t)])
   \<and> (invites (fst (addContact_part0 sch s sock f t)) = invites s
      \<or> invites (fst (addContact_part0 sch s sock f t)) =
          invites s @ [\<lparr>from_pin = f, to_pin = t, status = pending\<rparr>])
   \<and> (select_user_ids (users s) t \<noteq> [] \<longrightarrow> invites_for (invites s) f t = [] \<longrightarrow>
        addContact_part0 sch s sock f t =
          (s\<lparr>invites := invites s @ [\<lparr>from_pin = f, to_pin = t, status = pending\<rparr>]\<rparr>,
           notify (activeUsers s) t (InviteReceived f t) @ [SocketEmit sock (InviteSent t)]))
   \<and> (select_user_ids (users s) t \<noteq> [] \<longrightarrow>
        invites_for (invites (fst (addContact_part0 sch s sock f t))) f t \<noteq> [])"
proof (cases "select_user_ids (users s) t = []")
  case True
  then show ?thesis
    by (simp add: addContact_def addContact_part0_def)
next
  case False
  let ?new = "\<lparr>from_pin = f, to_pin = t, status = pending\<rparr>"
  note a = addContact_unfold [OF False, of sch sock f]
  note b = addContact_part0_unfold [OF False, of sch sock f]
  show ?thesis
  proof (cases "invite_conflict sch (invites s) ?new")
    case True
    then have "invites_for (invites s) f t \<noteq> []"
      by (simp add: invite_conflict_iff)
    with True False show ?thesis
      by (simp add: a b)
  next
    case free: False
    have "invites_for (invites s @ [?new]) f t \<noteq> []"
      by (simp add: invites_for_append)
    with free False show ?thesis
      by (simp add: a b)
  qed
qed

text \<open>
  In \<open>demo_state\<close> both identities exist and there is no invite from
  \<open>ZT-3333-4444\<close> to \<open>ZT-1111-2222\<close>: the invite is stored, whatever the schema
  (here one without constraints), and \<open>inviteSent\<close> is answered.
\<close>

theorem addContact_stores_invite_witness:
  "invites (fst (addContact \<lparr>invites_unique = False, friendships_unique = NoConstraint\<rparr>
      demo_state ''sockB'' ''ZT-3333-4444'' ''ZT-1111-2222'')) =
     [\<lparr>from_pin = ''ZT-1111-2222'', to_pin = ''ZT-3333-4444'', status = accepted\<rparr>,
      \<lparr>from_pin = ''ZT-3333-4444'', to_pin = ''ZT-1111-2222'', status = pending\<rparr>]
   \<and> snd (addContact \<lparr>invites_unique = False, friendships_unique = NoConstraint\<rparr>
      demo_state ''sockB'' ''ZT-3333-4444'' ''ZT-1111-2222'') =
     [SocketEmit ''sockB'' (InviteSent ''ZT-1111-2222'')]
   \<and> invites (fst (addContact_part0 \<lparr>invites_unique = False, friendships_unique = NoConstraint\<rparr>
      demo_state ''sockB'' ''ZT-3333-4444'' ''ZT-1111-2222'')) =
     [\<lparr>from_pin = ''ZT-1111-2222'', to_pin = ''ZT-3333-4444'', status = accepted\<rparr>,
      \<lparr>from_pin = ''ZT-3333-4444'', to_pin = ''ZT-1111-2222'', status = pending\<rparr>]"
proof -
  have us: "select_user_ids (users demo_state) ''ZT-1111-2222'' \<noteq> []"
    by (simp add: demo_state_def select_user_ids_def)
  have none: "invites_for (invites demo_state) ''ZT-3333-4444'' ''ZT-1111-2222'' = []"
    by (simp add: demo_state_def invites_for_def)
  have rows: "invites demo_state =
      [\<lparr>from_pin = ''ZT-1111-2222'', to_pin = ''ZT-3333-4444'', status = accepted\<rparr>]"
    by (simp add: demo_state_def)
  have n: "notify (activeUsers demo_state) ''ZT-1111-2222'' e = []" for e
    by (simp add: notify_def map_get_def demo_state_def)
  from addContact_stores_invite [where sch = "\<lparr>invites_unique = False, friendships_unique = NoConstraint\<rparr>"
      and s = demo_state and sock = "''sockB''" and f = "''ZT-3333-4444''" and t = "''ZT-1111-2222''"]
    us none
  show ?thesis
    by (simp add: rows n)
qed

text \<open>
  The claim as written fails in either variant when \<open>invites\<close> carries no
  uniqueness constraint: the same invite issued twice is stored twice, so the
  ordered pair has two pending rows. And when \<open>invites\<close> does carry the
  constraint, the second variant does not ignore a repeated invite: its insert
  raises and the answer is \<open>error\<close>.
\<close>

theorem repeated_invite_counterexample:
  "invites_for (invites (fst (run (handle \<lparr>invites_unique = False, friendships_unique = NoConstraint\<rparr>)
      demo_state
      [(''sockB'', 10, AddContact ''ZT-3333-4444'' ''ZT-1111-2222''),
       (''sockB'', 20, AddContact ''ZT-3333-4444'' ''ZT-1111-2222'')])))
      ''ZT-3333-4444'' ''ZT-1111-2222'' =
     [\<lparr>from_pin = ''ZT-3333-4444'', to_pin = ''ZT-1111-2222'', status = pending\<rparr>,
      \<lparr>from_pin = ''ZT-3333-4444'', to_pin = ''ZT-1111-2222'', status = pending\<rparr>]
   \<and> invites_for (invites (fst (run (handle_part0 \<lparr>invites_unique = False, friendships_unique = NoConstraint\<rparr>)
      demo_state
      [(''sockB'', 10, AddContact ''ZT-3333-4444'' ''ZT-1111-2222''),
       (''sockB'', 20, AddContact ''ZT-3333-4444'' ''ZT-1111-2222'')])))
      ''ZT-3333-4444'' ''ZT-1111-2222'' =
     [\<lparr>from_pin = ''ZT-3333-4444'', to_pin = ''ZT-1111-2222'', status = pending\<rparr>,
      \<lparr>from_pin = ''ZT-3333-4444'', to_pin = ''ZT-1111-2222'', status = pending\<rparr>]
   \<and> addContact_part0 \<lparr>invites_unique = True, friendships_unique = NoConstraint\<rparr>
        demo_state ''sockA'' ''ZT-1111-2222'' ''ZT-3333-4444'' =
       (demo_state, [SocketEmit ''sockA'' (Error (StoreMessage UniqueViolation))])"
  by (simp add: fst_run_Cons addContact_def addContact_part0_def select_user_ids_def
      insert_invite_do_nothing_def insert_invite_def invite_conflict_def invites_for_def
      demo_state_def)

subsection \<open>What an accept stores\<close>

lemma select_friendship_append:
  "select_friendship (rows @ [new]) a b =
     select_friendship rows a b @
       (if (user1_pin new = a \<and> user2_pin new = b) \<or> (user1_pin new = b \<and> user2_pin new = a)
        then [new] else [])"
  by (simp add: select_friendship_def)

lemma friendship_conflict_related:
  "friendship_conflict sch rows new \<Longrightarrow>
   select_friendship rows (user1_pin new) (user2_pin new) \<noteq> []"
  by (cases "friendships_unique sch")
     (auto simp: friendship_conflict_def same_ordered_def same_swapped_def
        select_friendship_empty_iff)

lemma acceptInvite_friendships:
  "friendships (fst (acceptInvite sch s sock f t)) =
     (if friendship_conflict sch (friendships s) \<lparr>user1_pin = f, user2_pin = t\<rparr>
      then friendships s else friendships s @ [\<lparr>user1_pin = f, user2_pin = t\<rparr>])
   \<and> friendships (fst (acceptInvite_part0 sch s sock f t)) =
     (if friendship_conflict sch (friendships s) \<lparr>user1_pin = f, user2_pin = t\<rparr>
      then friendships s else friendships s @ [\<lparr>user1_pin = f, user2_pin = t\<rparr>])"
  by (simp add: acceptInvite_def acceptInvite_part0_def insert_friendship_do_nothing_def
      insert_friendship_def Let_def)

text \<open>
  Claim C2, as the code has it. The handlers neither look for an existing
  relationship nor put the pair in a fixed order; whether an accept for a pair
  that is already related stores a further row is left to the store. What holds
  for every store: an \<open>acceptInvite\<close> adds at most one row, the row
  \<open>(fromPin, toPin)\<close> as given, and changes no other; when the friendship query
  finds no row for the pair in either ordering, that row is added; and after an
  \<open>acceptInvite\<close> the friendship query finds a row for the pair, asked in either
  ordering. Both variants.
\<close>

theorem acceptInvite_stores_relationship:
  "(friendships (fst (acceptInvite sch s sock f t)) = friendships s
      \<or> friendships (fst (acceptInvite sch s sock f t)) =
          friendships s @ [\<lparr>user1_pin = f, user2_pin = t\<rparr>])
   \<and> (select_friendship (friendships s) f t = [] \<longrightarrow>
        friendships (fst (acceptInvite sch s sock f t)) =
          friendships s @ [\<lparr>user1_pin = f, user2_pin = t\<rparr>])
   \<and> select_friendship (friendships (fst (acceptInvite sch s sock f t))) f t \<noteq> []
   \<and> select_friendship (friendships (fst (acceptInvite sch s sock f t))) t f \<noteq> []
   \<and> (friendships (fst (acceptInvite_part0 sch s sock f t)) = friendships s
      \<or> friendships (fst (acceptInvite_part0 sch s sock f t)) =
          friendships s @ [\<lparr>user1_pin = f, user2_pin = t\<rparr>])
   \<and> (select_friendship (friendships s) f t = [] \<longrightarrow>
        friendships (fst (acceptInvite_part0 sch s sock f t)) =
          friendships s @ [\<lparr>user1_pin = f, user2_pin = t\<rparr>])
   \<and> select_friendship (friendships (fst (acceptInvite_part0 sch s sock f t))) f t \<noteq> []
   \<and> select_friendship (friendships (fst (acceptInvite_part0 sch s sock f t))) t f \<noteq> []"
proof -
  let ?new = "\<lparr>user1_pin = f, user2_pin = t\<rparr>"
  note a = acceptInvite_friendships [of sch s sock f t]
  have c: "select_friendship rows t f = select_friendship rows f t" for rows
    by (rule select_friendship_commute)
  show ?thesis
  proof (cases "friendship_conflict sch (friendships s) ?new")
    case True
    from friendship_conflict_related [OF True]
    have "select_friendship (friendships s) f t \<noteq> []" by simp
    with True show ?thesis
      by (simp add: a c)
  next
    case False
    have "select_friendship (friendships s @ [?new]) f t \<noteq> []"
      by (simp add: select_friendship_append)
    with False show ?thesis
      by (simp add: a c)
  qed
qed

text \<open>
  On the empty store the first accept stores its row and the pair is related
  in both orderings, whatever the schema (here one with the constraint on the
  ordered columns).
\<close>

theorem acceptInvite_stores_relationship_witness:
  "friendships (fst (acceptInvite \<lparr>invites_unique = True, friendships_unique = OrderedPair\<rparr>
      empty_state ''sockB'' ''ZT-1111-2222'' ''ZT-3333-4444'')) =
     [\<lparr>user1_pin = ''ZT-1111-2222'', user2_pin = ''ZT-3333-4444''\<rparr>]
   \<and> select_friendship (friendships (fst (acceptInvite
        \<lparr>invites_unique = True, friendships_unique = OrderedPair\<rparr>
        empty_state ''sockB'' ''ZT-1111-2222'' ''ZT-3333-4444''))) ''ZT-3333-4444'' ''ZT-1111-2222''
       \<noteq> []
   \<and> friendships (fst (acceptInvite_part0 \<lparr>invites_unique = True, friendships_unique = OrderedPair\<rparr>
      empty_state ''sockB'' ''ZT-1111-2222'' ''ZT-3333-4444'')) =
     [\<lparr>user1_pin = ''ZT-1111-2222'', user2_pin = ''ZT-3333-4444''\<rparr>]"
proof -
  have none: "select_friendship (friendships empty_state) ''ZT-1111-2222'' ''ZT-3333-4444'' = []"
    by (simp add: empty_state_def select_friendship_def)
  have rows: "friendships empty_state = []"
    by (simp add: empty_state_def)
  note t = acceptInvite_stores_relationship [where sch = "\<lparr>invites_unique = True, friendships_unique = OrderedPair\<rparr>"
      and s = empty_state and sock = "''sockB''" and f = "''ZT-1111-2222''" and t = "''ZT-3333-4444''"]
  from t none have "friendships (fst (acceptInvite \<lparr>invites_unique = True, friendships_unique = OrderedPair\<rparr>
      empty_state ''sockB'' ''ZT-1111-2222'' ''ZT-3333-4444'')) =
     friendships empty_state @ [\<lparr>user1_pin = ''ZT-1111-2222'', user2_pin = ''ZT-3333-4444''\<rparr>]"
    by blast
  then have a: "friendships (fst (acceptInvite \<lparr>invites_unique = True, friendships_unique = OrderedPair\<rparr>
      empty_state ''sockB'' ''ZT-1111-2222'' ''ZT-3333-4444'')) =
     [\<lparr>user1_pin = ''ZT-1111-2222'', user2_pin = ''ZT-3333-4444''\<rparr>]"
    by (simp add: rows)
  from t have b: "select_friendship (friendships (fst (acceptInvite
        \<lparr>invites_unique = True, friendships_unique = OrderedPair\<rparr>
        empty_state ''sockB'' ''ZT-1111-2222'' ''ZT-3333-4444''))) ''ZT-3333-4444'' ''ZT-1111-2222''
       \<noteq> []"
    by blast
  from t none have "friendships (fst (acceptInvite_part0 \<lparr>invites_unique = True, friendships_unique = OrderedPair\<rparr>
      empty_state ''sockB'' ''ZT-1111-2222'' ''ZT-3333-4444'')) =
     friendships empty_state @ [\<lparr>user1_pin = ''ZT-1111-2222'', user2_pin = ''ZT-3333-4444''\<rparr>]"
    by blast
  then have c: "friendships (fst (acceptInvite_part0 \<lparr>invites_unique = True, friendships_unique = OrderedPair\<rparr>
      empty_state ''sockB'' ''ZT-1111-2222'' ''ZT-3333-4444'')) =
     [\<lparr>user1_pin = ''ZT-1111-2222'', user2_pin = ''ZT-3333-4444''\<rparr>]"
    by (simp add: rows)
  from a b c show ?thesis by blast
qed

text \<open>
  The claim as written fails in either variant. With a uniqueness constraint on
  the columns \<open>(user1_pin, user2_pin)\<close>, accepting \<open>(a, b)\<close> and then \<open>(b, a)\<close> stores
  both rows, two rows for the same two identities; with no constraint, accepting
  the same invite twice stores the row twice.
\<close>

theorem two_relationship_rows_counterexample:
  "select_friendship (friendships (fst (run (handle \<lparr>invites_unique = True, friendships_unique = OrderedPair\<rparr>)
      empty_state
      [(''sockB'', 10, AcceptInvite ''ZT-1111-2222'' ''ZT-3333-4444''),
       (''sockA'', 20, AcceptInvite ''ZT-3333-4444'' ''ZT-1111-2222'')])))
      ''ZT-1111-2222'' ''ZT-3333-4444'' =
     [\<lparr>user1_pin = ''ZT-1111-2222'', user2_pin = ''ZT-3333-4444''\<rparr>,
      \<lparr>user1_pin = ''ZT-3333-4444'', user2_pin = ''ZT-1111-2222''\<rparr>]
   \<and> select_friendship (friendships (fst (run (handle_part0 \<lparr>invites_unique = True, friendships_unique = OrderedPair\<rparr>)
      empty_state
      [(''sockB'', 10, AcceptInvite ''ZT-1111-2222'' ''ZT-3333-4444''),
       (''sockA'', 20, AcceptInvite ''ZT-3333-4444'' ''ZT-1111-2222'')])))
      ''ZT-1111-2222'' ''ZT-3333-4444'' =
     [\<lparr>user1_pin = ''ZT-1111-2222'', user2_pin = ''ZT-3333-4444''\<rparr>,
      \<lparr>user1_pin = ''ZT-3333-4444'', user2_pin = ''ZT-1111-2222''\<rparr>]
   \<and> friendships (fst (run (handle \<lparr>invites_unique = False, friendships_unique = NoConstraint\<rparr>)
      empty_state
      [(''sockB'', 10, AcceptInvite ''ZT-1111-2222'' ''ZT-3333-4444''),
       (''sockB'', 20, AcceptInvite ''ZT-1111-2222'' ''ZT-3333-4444'')])) =
     [\<lparr>user1_pin = ''ZT-1111-2222'', user2_pin = ''ZT-3333-4444''\<rparr>,
      \<lparr>user1_pin = ''ZT-1111-2222'', user2_pin = ''ZT-3333-4444''\<rparr>]"
  by (simp add: fst_run_Cons acceptInvite_def acceptInvite_part0_def
      insert_friendship_do_nothing_def insert_friendship_def friendship_conflict_def
      same_ordered_def select_friendship_def Let_def empty_state_def)

subsection \<open>Under a uniqueness constraint of the store\<close>

text \<open>
  When the store does carry the constraints the specification asks for, they
  keep the tables free of duplicates through every run of either variant, and
  through every sequence of the statements that write \<open>invites\<close>.
\<close>

lemma one_invite_append:
  assumes "one_invite_per_pair rows" "invites_for rows (from_pin new) (to_pin new) = []"
  shows "one_invite_per_pair (rows @ [new])"
  unfolding one_invite_per_pair_def
proof (intro allI)
  fix f t
  show "length (invites_for (rows @ [new]) f t) \<le> 1"
  proof (cases "from_pin new = f \<and> to_pin new = t")
    case True
    with assms(2) show ?thesis by (simp add: invites_for_append)
  next
    case False
    then have "invites_for (rows @ [new]) f t = invites_for rows f t"
      by (auto simp: invites_for_append)
    with assms(1) show ?thesis by (simp add: one_invite_per_pair_def)
  qed
qed

lemma one_invite_insert_do_nothing:
  "invites_unique sch \<Longrightarrow> one_invite_per_pair rows \<Longrightarrow>
   one_invite_per_pair (insert_invite_do_nothing sch rows new)"
  by (simp add: insert_invite_do_nothing_def invite_conflict_iff one_invite_append)

lemma one_invite_insert_plain:
  "invites_unique sch \<Longrightarrow> one_invite_per_pair rows \<Longrightarrow> insert_invite sch rows new = Inr rows' \<Longrightarrow>
   one_invite_per_pair rows'"
  by (auto simp: insert_invite_def invite_conflict_iff one_invite_append split: if_splits)

lemma invites_for_update:
  "length (invites_for (update_invite_status rows st f t) f' t') = length (invites_for rows f' t')"
  by (induction rows) (auto simp: invites_for_def update_invite_status_def)

lemma one_invite_update:
  "one_invite_per_pair rows \<Longrightarrow> one_invite_per_pair (update_invite_status rows st f t)"
  by (simp add: one_invite_per_pair_def invites_for_update)

lemma one_invite_exec:
  "invites_unique sch \<Longrightarrow> one_invite_per_pair rows \<Longrightarrow>
   one_invite_per_pair (exec_invites_write sch rows w)"
  by (cases w)
     (auto simp: one_invite_insert_do_nothing one_invite_update
           intro: one_invite_insert_plain split: sum.split)

lemma one_invite_foldl:
  "invites_unique sch \<Longrightarrow> one_invite_per_pair rows \<Longrightarrow>
   one_invite_per_pair (foldl (exec_invites_write sch) rows ws)"
  by (induction ws arbitrary: rows) (simp_all add: one_invite_exec)

lemma handle_invites:
  assumes u: "invites_unique sch" and i: "one_invite_per_pair (invites s)"
  shows "one_invite_per_pair (invites (fst (handle sch s x)))"
proof -
  obtain sock now a where x: "x = (sock, now, a)" by (cases x) auto
  show ?thesis
  proof (cases a)
    case (RequestOTP e n)
    with i x show ?thesis by (simp add: requestOTP_def Let_def)
  next
    case (VerifyOTP e code num numb)
    with i x show ?thesis by (simp add: verifyOTP_keeps)
  next
    case (Register p n ab)
    with i x show ?thesis by (simp add: register_def Let_def split: prod.split)
  next
    case (AddContact f t)
    with i u x show ?thesis by (simp add: addContact_def one_invite_insert_do_nothing)
  next
    case (AcceptInvite f t)
    with i x show ?thesis by (simp add: acceptInvite_def one_invite_update)
  next
    case (SendMessage f t m l)
    with i x show ?thesis by (simp add: sendMessage_def Let_def split: prod.split)
  next
    case Disconnect
    with i x show ?thesis by (simp add: disconnect_def)
  qed
qed

lemma handle_part0_invites:
  assumes u: "invites_unique sch" and i: "one_invite_per_pair (invites s)"
  shows "one_invite_per_pair (invites (fst (handle_part0 sch s x)))"
proof -
  obtain sock now a where x: "x = (sock, now, a)" by (cases x) auto
  show ?thesis
  proof (cases a)
    case (RequestOTP e n)
    with i x show ?thesis by simp
  next
    case (VerifyOTP e code num numb)
    with i x show ?thesis by simp
  next
    case (Register p n ab)
    with i x show ?thesis by (simp add: register_part0_keeps)
  next
    case (AddContact f t)
    with i u x show ?thesis
      by (auto simp: addContact_part0_def intro: one_invite_insert_plain split: sum.split)
  next
    case (AcceptInvite f t)
    with i x show ?thesis
      by (simp add: acceptInvite_part0_def Let_def one_invite_update split: sum.split)
  next
    case (SendMessage f t m l)
    with i x show ?thesis by (simp add: sendMessage_part0_def Let_def split: prod.split)
  next
    case Disconnect
    with i x show ?thesis by (simp add: disconnect_def)
  qed
qed

lemma invites_constraint_keeps_one_per_pair:
  assumes u: "invites_unique sch"
    and i: "\<forall>f t. length (invites_for (invites s) f t) \<le> 1"
  shows "(\<forall>f t. length (invites_for (invites (fst (run (handle sch) s inputs))) f t) \<le> 1)
    \<and> (\<forall>f t. length (invites_for (invites (fst (run (handle_part0 sch) s inputs))) f t) \<le> 1)
    \<and> (\<forall>f t. length (filter (\<lambda>r. status r = pending)
                 (invites_for (invites (fst (run (handle sch) s inputs))) f t)) \<le> 1)
    \<and> (\<forall>f t. length (filter (\<lambda>r. status r = pending)
                 (invites_for (invites (fst (run (handle_part0 sch) s inputs))) f t)) \<le> 1)
    \<and> (\<forall>f t. length (invites_for (foldl (exec_invites_write sch) (invites s) ws) f t) \<le> 1)
    \<and> (invites_for (invites s) f t \<noteq> [] \<longrightarrow>
          fst (addContact sch s sock f t) = s \<and> fst (addContact_part0 sch s sock f t) = s)
    \<and> (invites_for (invites s) f t \<noteq> [] \<longrightarrow> select_user_ids (users s) t \<noteq> [] \<longrightarrow>
          snd (addContact sch s sock f t) =
            notify (activeUsers s) t (InviteReceived f t) @ [SocketEmit sock (InviteSent t)])"
proof -
  from i have i': "one_invite_per_pair (invites s)"
    by (simp add: one_invite_per_pair_def)
  have r: "one_invite_per_pair (invites (fst (run (handle sch) s inputs)))"
    by (rule run_invariant [where I = "\<lambda>s. one_invite_per_pair (invites s)", OF _ i'])
       (rule handle_invites [OF u])
  have r0: "one_invite_per_pair (invites (fst (run (handle_part0 sch) s inputs)))"
    by (rule run_invariant [where I = "\<lambda>s. one_invite_per_pair (invites s)", OF _ i'])
       (rule handle_part0_invites [OF u])
  have p: "length (filter (\<lambda>r. status r = pending) (invites_for rows f t)) \<le> 1"
    if "one_invite_per_pair rows" for rows f t
    using that le_trans [OF length_filter_le, of "invites_for rows f t" 1 "\<lambda>r. status r = pending"]
    by (simp add: one_invite_per_pair_def)
  note r r0 p [OF r] p [OF r0]
  moreover have "one_invite_per_pair (foldl (exec_invites_write sch) (invites s) ws)"
    by (rule one_invite_foldl [OF u i'])
  moreover have "fst (addContact sch s sock f t) = s \<and> fst (addContact_part0 sch s sock f t) = s"
    if "invites_for (invites s) f t \<noteq> []"
    using that u
    by (simp add: addContact_def addContact_part0_def insert_invite_do_nothing_def
        insert_invite_def invite_conflict_iff)
  moreover have "snd (addContact sch s sock f t) =
            notify (activeUsers s) t (InviteReceived f t) @ [SocketEmit sock (InviteSent t)]"
    if "select_user_ids (users s) t \<noteq> []"
    using that by (simp add: addContact_def)
  ultimately show ?thesis
    by (simp add: one_invite_per_pair_def)
qed


lemma friendship_conflict_unordered:
  "friendships_unique sch = UnorderedPair \<Longrightarrow>
   friendship_conflict sch rows new =
     (select_friendship rows (user1_pin new) (user2_pin new) \<noteq> [])"
  by (auto simp: friendship_conflict_def same_ordered_def same_swapped_def
      select_friendship_empty_iff)

lemma one_friendship_append:
  assumes "one_friendship_per_pair rows"
    and "select_friendship rows (user1_pin new) (user2_pin new) = []"
  shows "one_friendship_per_pair (rows @ [new])"
  unfolding one_friendship_per_pair_def
proof (intro allI)
  fix a b
  show "length (select_friendship (rows @ [new]) a b) \<le> 1"
  proof (cases "(user1_pin new = a \<and> user2_pin new = b) \<or> (user1_pin new = b \<and> user2_pin new = a)")
    case True
    then have "select_friendship rows a b = select_friendship rows (user1_pin new) (user2_pin new)"
      using select_friendship_commute [of rows a b] by auto
    with assms(2) True show ?thesis by (simp add: select_friendship_append)
  next
    case False
    then have "select_friendship (rows @ [new]) a b = select_friendship rows a b"
      by (auto simp: select_friendship_append)
    with assms(1) show ?thesis by (simp add: one_friendship_per_pair_def)
  qed
qed

lemma one_friendship_insert_do_nothing:
  "friendships_unique sch = UnorderedPair \<Longrightarrow> one_friendship_per_pair rows \<Longrightarrow>
   one_friendship_per_pair (insert_friendship_do_nothing sch rows new)"
  by (simp add: insert_friendship_do_nothing_def friendship_conflict_unordered one_friendship_append)

lemma one_friendship_insert_plain:
  "friendships_unique sch = UnorderedPair \<Longrightarrow> one_friendship_per_pair rows \<Longrightarrow>
   insert_friendship sch rows new = Inr rows' \<Longrightarrow> one_friendship_per_pair rows'"
  by (auto simp: insert_friendship_def friendship_conflict_unordered one_friendship_append
      split: if_splits)

lemma handle_friendships:
  assumes u: "friendships_unique sch = UnorderedPair" and i: "one_friendship_per_pair (friendships s)"
  shows "one_friendship_per_pair (friendships (fst (handle sch s x)))"
proof -
  obtain sock now a where x: "x = (sock, now, a)" by (cases x) auto
  show ?thesis
  proof (cases a)
    case (RequestOTP e n)
    with i x show ?thesis by (simp add: requestOTP_def Let_def)
  next
    case (VerifyOTP e code num numb)
    with i x show ?thesis by (simp add: verifyOTP_keeps)
  next
    case (Register p n ab)
    with i x show ?thesis by (simp add: register_def Let_def split: prod.split)
  next
    case (AddContact f t)
    with i x show ?thesis by (simp add: addContact_def)
  next
    case (AcceptInvite f t)
    with i u x show ?thesis by (simp add: acceptInvite_def one_friendship_insert_do_nothing)
  next
    case (SendMessage f t m l)
    with i x show ?thesis by (simp add: sendMessage_def Let_def split: prod.split)
  next
    case Disconnect
    with i x show ?thesis by (simp add: disconnect_def)
  qed
qed

lemma handle_part0_friendships:
  assumes u: "friendships_unique sch = UnorderedPair" and i: "one_friendship_per_pair (friendships s)"
  shows "one_friendship_per_pair (friendships (fst (handle_part0 sch s x)))"
proof -
  obtain sock now a where x: "x = (sock, now, a)" by (cases x) auto
  show ?thesis
  proof (cases a)
    case (RequestOTP e n)
    with i x show ?thesis by simp
  next
    case (VerifyOTP e code num numb)
    with i x show ?thesis by simp
  next
    case (Register p n ab)
    with i x show ?thesis by (simp add: register_part0_keeps)
  next
    case (AddContact f t)
    with i x show ?thesis by (simp add: addContact_part0_def split: sum.split)
  next
    case (AcceptInvite f t)
    with i u x show ?thesis
      by (auto simp: acceptInvite_part0_def Let_def intro: one_friendship_insert_plain
          split: sum.split)
  next
    case (SendMessage f t m l)
    with i x show ?thesis by (simp add: sendMessage_part0_def Let_def split: prod.split)
  next
    case Disconnect
    with i x show ?thesis by (simp add: disconnect_def)
  qed
qed

lemma unordered_constraint_keeps_one_per_pair:
  assumes u: "friendships_unique sch = UnorderedPair"
    and i: "\<forall>a b. length (select_friendship (friendships s) a b) \<le> 1"
  shows "(\<forall>a b. length (select_friendship (friendships (fst (run (handle sch) s inputs))) a b) \<le> 1)
    \<and> (\<forall>a b. length (select_friendship (friendships (fst (run (handle_part0 sch) s inputs))) a b) \<le> 1)
    \<and> friendships (fst (acceptInvite sch s sock f t)) =
        (if select_friendship (friendships s) f t = []
         then friendships s @ [\<lparr>user1_pin = f, user2_pin = t\<rparr>] else friendships s)
    \<and> friendships (fst (acceptInvite_part0 sch s sock f t)) =
        (if select_friendship (friendships s) f t = []
         then friendships s @ [\<lparr>user1_pin = f, user2_pin = t\<rparr>] else friendships s)"
proof -
  from i have i': "one_friendship_per_pair (friendships s)"
    by (simp add: one_friendship_per_pair_def)
  have "one_friendship_per_pair (friendships (fst (run (handle sch) s inputs)))"
    by (rule run_invariant [where I = "\<lambda>s. one_friendship_per_pair (friendships s)", OF _ i'])
       (rule handle_friendships [OF u])
  moreover have "one_friendship_per_pair (friendships (fst (run (handle_part0 sch) s inputs)))"
    by (rule run_invariant [where I = "\<lambda>s. one_friendship_per_pair (friendships s)", OF _ i'])
       (rule handle_part0_friendships [OF u])
  moreover have "friendships (fst (acceptInvite sch s sock f t)) =
        (if select_friendship (friendships s) f t = []
         then friendships s @ [\<lparr>user1_pin = f, user2_pin = t\<rparr>] else friendships s)"
    by (simp add: acceptInvite_def insert_friendship_do_nothing_def
        friendship_conflict_unordered [OF u])
  moreover have "friendships (fst (acceptInvite_part0 sch s sock f t)) =
        (if select_friendship (friendships s) f t = []
         then friendships s @ [\<lparr>user1_pin = f, user2_pin = t\<rparr>] else friendships s)"
    by (simp add: acceptInvite_part0_def insert_friendship_def Let_def
        friendship_conflict_unordered [OF u])
  ultimately show ?thesis
    by (simp add: one_friendship_per_pair_def)
qed


end
